theory Spec2Isabelle
  imports Complex_Main
begin

section \<open>Pipe-flow hydraulics: the calculations of app/core/pipe\_calc.py\<close>

text \<open>
  The module computes Reynolds number, Darcy friction factor, head losses and pressure
  drop. Its numbers are Python floats; here they are real numbers, so rounding, overflow
  and the special values inf and nan are outside the model. Every exception the Python
  can raise on real arguments is a value of \<open>error\<close>, and a function that can raise
  returns \<open>error + real\<close> with \<open>Inl\<close> for the exception. Whether the Colebrook solver
  raises is decided by rounding, so the solver is modelled a second time with every
  operation rounded to binary64.
\<close>

subsection \<open>Exceptions and the arithmetic primitives that raise\<close>

datatype error =
    ValueError string
  | ZeroDivisionError
  | TypeError

definition and_then :: "error + 'a \<Rightarrow> ('a \<Rightarrow> error + 'b) \<Rightarrow> error + 'b" where
  "and_then r k = (case r of Inl e \<Rightarrow> Inl e | Inr v \<Rightarrow> k v)"

text \<open>\<^verbatim>\<open>a / b\<close> on floats raises ZeroDivisionError when \<open>b\<close> is zero.\<close>

definition py_div :: "real \<Rightarrow> real \<Rightarrow> error + real" where
  "py_div a b = (if b = 0 then Inl ZeroDivisionError else Inr (a / b))"

text \<open>\<^verbatim>\<open>math.sqrt\<close> raises ValueError below zero, \<^verbatim>\<open>math.log10\<close> at and below zero.\<close>

definition py_sqrt :: "real \<Rightarrow> error + real" where
  "py_sqrt x = (if x < 0 then Inl (ValueError ''math domain error'') else Inr (sqrt x))"

definition py_log10 :: "real \<Rightarrow> error + real" where
  "py_log10 x = (if x \<le> 0 then Inl (ValueError ''math domain error'') else Inr (log 10 x))"

subsection \<open>Constants\<close>

definition g :: real where
  "g = 9.80665"

text \<open>The defaults of \<^verbatim>\<open>friction_factor_colebrook\<close>: seed, iteration cap, tolerance.\<close>

definition default_f0 :: real where
  "default_f0 = 0.02"

definition default_max_iter :: nat where
  "default_max_iter = 50"

definition default_tol :: real where
  "default_tol = 1 / 1000000"

subsection \<open>Reynolds number\<close>

text \<open>
  \<^verbatim>\<open>reynolds_number(rho, V, D, mu=None, nu=None)\<close>: the optional viscosities are
  \<open>real option\<close>. When \<open>nu\<close> is absent it is \<open>mu / rho\<close>; the result is \<open>V * D / nu\<close>.
\<close>

definition reynolds_number ::
  "real \<Rightarrow> real \<Rightarrow> real \<Rightarrow> real option \<Rightarrow> real option \<Rightarrow> error + real" where
  "reynolds_number rho V D mu nu =
     (case nu of
        Some n \<Rightarrow> py_div (V * D) n
      | None \<Rightarrow>
          (case mu of
             None \<Rightarrow> Inl (ValueError ''Provide mu or nu'')
           | Some m \<Rightarrow> and_then (py_div m rho) (\<lambda>n. py_div (V * D) n)))"

subsection \<open>Friction factor\<close>

text \<open>The Reynolds number, \<^verbatim>\<open>Re\<close> in the source, is \<open>re\<close> here: \<open>Re\<close> is the real part in HOL.\<close>

definition friction_factor_laminar :: "real \<Rightarrow> error + real" where
  "friction_factor_laminar re = py_div 64 re"

text \<open>
  Swamee-Jain: after the guard \<open>re \<le> 0\<close> the base of \<^verbatim>\<open>Re ** 0.9\<close> is positive, where
  Python's power is \<open>powr\<close>.
\<close>

definition friction_factor_swamee_jain :: "real \<Rightarrow> real \<Rightarrow> real \<Rightarrow> error + real" where
  "friction_factor_swamee_jain re eps_rel D =
     (if re \<le> 0 then Inl (ValueError ''Re must be positive for Swamee-Jain'')
      else
        and_then (py_div eps_rel D) (\<lambda>a.
        let A = a / 3.7 in
        and_then (py_div 5.74 (re powr 0.9)) (\<lambda>B.
        and_then (py_log10 (A + B)) (\<lambda>l.
        py_div 0.25 (l ^ 2)))))"

text \<open>
  One pass through the body of the Colebrook loop up to \<^verbatim>\<open>f_new\<close>, in the order the
  Python evaluates it: \<^verbatim>\<open>lhs\<close>, then \<^verbatim>\<open>rhs\<close> (left operand of the sum first), then
  \<^verbatim>\<open>f_new = 1.0 / (rhs ** 2)\<close>. The residual is computed and never used.
\<close>

definition colebrook_f_new :: "real \<Rightarrow> real \<Rightarrow> real \<Rightarrow> real \<Rightarrow> error + real" where
  "colebrook_f_new re eps_rel D f =
     and_then (py_sqrt f) (\<lambda>s.
     and_then (py_div 1 s) (\<lambda>lhs.
     and_then (py_div eps_rel D) (\<lambda>a.
     and_then (py_div 2.51 (re * s)) (\<lambda>t.
     and_then (py_log10 (a / 3.7 + t)) (\<lambda>l.
     let rhs = - 2 * l; residual = lhs - rhs in
     py_div 1 (rhs ^ 2))))))"

text \<open>
  \<^verbatim>\<open>for i in range(max_iter)\<close>: the first argument below counts the iterations that
  remain. When none remains the loop is left and \<open>f\<close> is returned.
\<close>

fun colebrook_loop :: "real \<Rightarrow> real \<Rightarrow> real \<Rightarrow> real \<Rightarrow> nat \<Rightarrow> real \<Rightarrow> error + real" where
  "colebrook_loop re eps_rel D tol 0 f = Inr f"
| "colebrook_loop re eps_rel D tol (Suc n) f =
     (case colebrook_f_new re eps_rel D f of
        Inl e \<Rightarrow> Inl e
      | Inr f_new \<Rightarrow>
          if \<bar>f_new - f\<bar> < tol then Inr f_new
          else colebrook_loop re eps_rel D tol n (0.5 * (f + f_new)))"

definition friction_factor_colebrook ::
  "real \<Rightarrow> real \<Rightarrow> real \<Rightarrow> real \<Rightarrow> nat \<Rightarrow> real \<Rightarrow> error + real" where
  "friction_factor_colebrook re eps_rel D f0 max_iter tol =
     (if re \<le> 0 then Inl (ValueError ''Re must be positive for Colebrook'')
      else colebrook_loop re eps_rel D tol max_iter f0)"

text \<open>
  The combined selection. \<^verbatim>\<open>except Exception: pass\<close> swallows whatever Swamee-Jain
  raises, so an error there and a value outside \<open>(0, 1)\<close> both reach the fallback.
\<close>

definition friction_factor :: "real \<Rightarrow> real \<Rightarrow> real \<Rightarrow> error + real" where
  "friction_factor re eps_rel D =
     (if re \<le> 0 then Inl (ValueError ''Re must be positive'')
      else if re < 2300 then friction_factor_laminar re
      else
        (case friction_factor_swamee_jain re eps_rel D of
           Inr f_sj \<Rightarrow>
             if f_sj > 0 \<and> f_sj < 1 then Inr f_sj
             else friction_factor_colebrook re eps_rel D default_f0 default_max_iter default_tol
         | Inl e \<Rightarrow>
             friction_factor_colebrook re eps_rel D default_f0 default_max_iter default_tol))"

subsection \<open>Kinematics and head loss\<close>

definition velocity_from_flowrate :: "real \<Rightarrow> real \<Rightarrow> error + real" where
  "velocity_from_flowrate Q D = (let A = pi * (D ^ 2) / 4 in py_div Q A)"

definition head_loss_darcy :: "real \<Rightarrow> real \<Rightarrow> real \<Rightarrow> real \<Rightarrow> error + real" where
  "head_loss_darcy f L D V = and_then (py_div L D) (\<lambda>r. Inr (f * r * (V ^ 2) / (2 * g)))"

definition minor_loss_head :: "real \<Rightarrow> real \<Rightarrow> real" where
  "minor_loss_head K_total V = K_total * (V ^ 2) / (2 * g)"

definition pressure_drop :: "real \<Rightarrow> real \<Rightarrow> real" where
  "pressure_drop rho head_total = rho * g * head_total"

subsection \<open>The analysis entry point\<close>

text \<open>The returned dictionary has a fixed set of keys; it is a record.\<close>

record flow_result =
  res_Re :: real
  res_f :: real
  res_V :: real
  res_h_f :: real
  res_h_minor :: real
  res_head_total :: real
  res_deltaP :: real

text \<open>
  \<^verbatim>\<open>analyze_pipe_flow(Q, V, D, L, eps_rel, rho, mu, nu, K_total)\<close>. The parameters the
  code compares with \<^verbatim>\<open>None\<close> (\<open>Q\<close>, \<open>V\<close>, \<open>rho\<close>, \<open>mu\<close>, \<open>nu\<close>) are options; \<open>D\<close> and
  \<open>L\<close> are only ever used as numbers and are numbers here. A call with \<open>V\<close> absent and
  \<open>Q\<close> present takes the velocity from the flow rate; with \<open>V\<close> present \<open>Q\<close> is not read.
\<close>

definition analyze_pipe_flow ::
  "real option \<Rightarrow> real option \<Rightarrow> real \<Rightarrow> real \<Rightarrow> real \<Rightarrow> real option \<Rightarrow>
   real option \<Rightarrow> real option \<Rightarrow> real \<Rightarrow> error + flow_result" where
  "analyze_pipe_flow Q V D L eps_rel rho mu nu K_total =
     (if Q = None \<and> V = None then Inl (ValueError ''Provide Q or V'')
      else
        and_then
          (case V of
             None \<Rightarrow> (case Q of None \<Rightarrow> Inl TypeError | Some q \<Rightarrow> velocity_from_flowrate q D)
           | Some v \<Rightarrow> Inr v) (\<lambda>v.
        case rho of
          None \<Rightarrow> Inl (ValueError ''rho required'')
        | Some r \<Rightarrow>
            and_then (reynolds_number r v D mu nu) (\<lambda>re.
            and_then (friction_factor re eps_rel D) (\<lambda>f.
            and_then (head_loss_darcy f L D v) (\<lambda>h_f.
            let h_minor = minor_loss_head K_total v;
                head_total = h_f + h_minor;
                deltaP = pressure_drop r head_total
            in Inr \<lparr>res_Re = re, res_f = f, res_V = v, res_h_f = h_f,
                     res_h_minor = h_minor, res_head_total = head_total,
                     res_deltaP = deltaP\<rparr>)))))"

text \<open>The exception of the check on \<open>Q\<close> and \<open>V\<close> at the head of the entry point.\<close>

definition flow_mode_error :: error where
  "flow_mode_error = ValueError ''Provide Q or V''"

subsection \<open>The specification's formulas\<close>

text \<open>
  The explicit Swamee-Jain value as the specification writes it,
  \<open>f_sj = 0.25 / [log10(eps/(3.7 D) + 5.74/Re^0.9)]^2\<close>, a plain real expression
  (in HOL a quotient by zero is zero).
\<close>

definition swamee_jain_spec :: "real \<Rightarrow> real \<Rightarrow> real \<Rightarrow> real" where
  "swamee_jain_spec re eps D = 0.25 / (log 10 (eps / (3.7 * D) + 5.74 / re powr 0.9)) ^ 2"

text \<open>
  The right-hand side of the Colebrook-White equation as the specification writes it,
  \<open>-2 log10(eps/(3.7 D) + 2.51/(Re sqrt f))\<close>, and the relaxation the specification
  describes: propose \<open>f_new = 1/rhs^2\<close>, return it within the tolerance, otherwise go on
  from \<open>0.5 (f + f_new)\<close>; after the last iteration return the current \<open>f\<close>.
\<close>

definition colebrook_rhs :: "real \<Rightarrow> real \<Rightarrow> real \<Rightarrow> real \<Rightarrow> real" where
  "colebrook_rhs re eps D f = - 2 * log 10 (eps / (3.7 * D) + 2.51 / (re * sqrt f))"

fun colebrook_iter :: "real \<Rightarrow> real \<Rightarrow> real \<Rightarrow> real \<Rightarrow> nat \<Rightarrow> real \<Rightarrow> real" where
  "colebrook_iter re eps D tol 0 f = f"
| "colebrook_iter re eps D tol (Suc n) f =
     (let f_new = 1 / (colebrook_rhs re eps D f) ^ 2 in
      if \<bar>f_new - f\<bar> < tol then f_new
      else colebrook_iter re eps D tol n (0.5 * (f + f_new)))"

text \<open>
  The run of that relaxation from \<open>f\<close> over at most \<open>n\<close> iterations meets no iteration
  whose right-hand side is zero.
\<close>

fun colebrook_rhs_nonzero :: "real \<Rightarrow> real \<Rightarrow> real \<Rightarrow> real \<Rightarrow> nat \<Rightarrow> real \<Rightarrow> bool" where
  "colebrook_rhs_nonzero re eps D tol 0 f = True"
| "colebrook_rhs_nonzero re eps D tol (Suc n) f =
     (colebrook_rhs re eps D f \<noteq> 0 \<and>
      (let f_new = 1 / (colebrook_rhs re eps D f) ^ 2 in
       \<bar>f_new - f\<bar> < tol \<or> colebrook_rhs_nonzero re eps D tol n (0.5 * (f + f_new))))"

subsection \<open>The Colebrook solver in binary64 arithmetic\<close>

text \<open>
  A Python float is an IEEE binary64 number. \<open>rne\<close> rounds a real to the nearest integer,
  ties to the even one; \<open>b64\<close> rounds a real to the nearest number with a 53-bit
  significand, ties to even. The exponent range is not bounded here: overflow, underflow
  and subnormal numbers are outside the model.
\<close>

definition rne :: "real \<Rightarrow> int" where
  "rne y = (let n = \<lfloor>y\<rfloor>; d = y - of_int n in
            if d < 1 / 2 then n else if 1 / 2 < d then n + 1
            else if even n then n else n + 1)"

definition b64 :: "real \<Rightarrow> real" where
  "b64 x = (if x = 0 then 0
            else let e = \<lfloor>log 2 \<bar>x\<bar>\<rfloor>; u = 2 powr (real_of_int e - 52)
                 in sgn x * (of_int (rne (\<bar>x\<bar> / u)) * u))"

text \<open>
  The primitives with their results rounded. \<^verbatim>\<open>math.sqrt\<close> is correctly rounded;
  \<^verbatim>\<open>math.log10\<close> and \<^verbatim>\<open>**\<close> are taken as correctly rounded too (what is proved
  below uses of \<^verbatim>\<open>math.log10\<close> only its sign, that it is exact at 1.0 and a bound of one
  percent on its error).
\<close>

definition py_div_b64 :: "real \<Rightarrow> real \<Rightarrow> error + real" where
  "py_div_b64 a b = (if b = 0 then Inl ZeroDivisionError else Inr (b64 (a / b)))"

definition py_sqrt_b64 :: "real \<Rightarrow> error + real" where
  "py_sqrt_b64 x = (if x < 0 then Inl (ValueError ''math domain error'') else Inr (b64 (sqrt x)))"

definition py_log10_b64 :: "real \<Rightarrow> error + real" where
  "py_log10_b64 x =
     (if x \<le> 0 then Inl (ValueError ''math domain error'') else Inr (b64 (log 10 x)))"

text \<open>
  The solver again, operation by operation as the Python evaluates it, each result
  rounded: the decimal literals \<^verbatim>\<open>3.7\<close> and \<^verbatim>\<open>2.51\<close> are the floats nearest to them,
  \<^verbatim>\<open>1.0\<close>, \<^verbatim>\<open>-2.0\<close> and \<^verbatim>\<open>0.5\<close> are exact, \<^verbatim>\<open>abs\<close> is exact. The caller passes
  floats; the default seed and tolerance are \<open>b64 default_f0\<close> and \<open>b64 default_tol\<close>.
\<close>

definition colebrook_f_new_b64 :: "real \<Rightarrow> real \<Rightarrow> real \<Rightarrow> real \<Rightarrow> error + real" where
  "colebrook_f_new_b64 re eps_rel D f =
     and_then (py_sqrt_b64 f) (\<lambda>s.
     and_then (py_div_b64 1 s) (\<lambda>lhs.
     and_then (py_div_b64 eps_rel D) (\<lambda>a.
     and_then (py_div_b64 a (b64 3.7)) (\<lambda>A.
     and_then (py_div_b64 (b64 2.51) (b64 (re * s))) (\<lambda>t.
     and_then (py_log10_b64 (b64 (A + t))) (\<lambda>l.
     let rhs = b64 (- 2 * l); residual = b64 (lhs - rhs) in
     py_div_b64 1 (b64 (rhs ^ 2))))))))"

fun colebrook_loop_b64 ::
  "real \<Rightarrow> real \<Rightarrow> real \<Rightarrow> real \<Rightarrow> nat \<Rightarrow> real \<Rightarrow> error + real" where
  "colebrook_loop_b64 re eps_rel D tol 0 f = Inr f"
| "colebrook_loop_b64 re eps_rel D tol (Suc n) f =
     (case colebrook_f_new_b64 re eps_rel D f of
        Inl e \<Rightarrow> Inl e
      | Inr f_new \<Rightarrow>
          if \<bar>b64 (f_new - f)\<bar> < tol then Inr f_new
          else colebrook_loop_b64 re eps_rel D tol n (b64 (0.5 * b64 (f + f_new))))"

definition friction_factor_colebrook_b64 ::
  "real \<Rightarrow> real \<Rightarrow> real \<Rightarrow> real \<Rightarrow> nat \<Rightarrow> real \<Rightarrow> error + real" where
  "friction_factor_colebrook_b64 re eps_rel D f0 max_iter tol =
     (if re \<le> 0 then Inl (ValueError ''Re must be positive for Colebrook'')
      else colebrook_loop_b64 re eps_rel D tol max_iter f0)"

text \<open>
  The specification's relaxation in the same arithmetic: the argument of the logarithm,
  the right-hand side \<open>-2 log10(eps/(3.7 D) + 2.51/(Re sqrt f))\<close>, the proposal
  \<open>f_new = 1/rhs^2\<close>, the iteration that returns \<open>f_new\<close> within the tolerance, goes on
  from \<open>0.5 (f + f_new)\<close> otherwise and returns the current \<open>f\<close> after the last iteration,
  and the condition that no iteration reached has a zero right-hand side.
\<close>

definition colebrook_arg_b64 :: "real \<Rightarrow> real \<Rightarrow> real \<Rightarrow> real \<Rightarrow> real" where
  "colebrook_arg_b64 re eps D f =
     b64 (b64 (b64 (eps / D) / b64 3.7) + b64 (b64 2.51 / b64 (re * b64 (sqrt f))))"

definition colebrook_rhs_b64 :: "real \<Rightarrow> real \<Rightarrow> real \<Rightarrow> real \<Rightarrow> real" where
  "colebrook_rhs_b64 re eps D f = b64 (- 2 * b64 (log 10 (colebrook_arg_b64 re eps D f)))"

definition colebrook_proposal_b64 :: "real \<Rightarrow> real \<Rightarrow> real \<Rightarrow> real \<Rightarrow> real" where
  "colebrook_proposal_b64 re eps D f = b64 (1 / b64 ((colebrook_rhs_b64 re eps D f) ^ 2))"

fun colebrook_iter_b64 :: "real \<Rightarrow> real \<Rightarrow> real \<Rightarrow> real \<Rightarrow> nat \<Rightarrow> real \<Rightarrow> real" where
  "colebrook_iter_b64 re eps D tol 0 f = f"
| "colebrook_iter_b64 re eps D tol (Suc n) f =
     (let f_new = colebrook_proposal_b64 re eps D f in
      if \<bar>b64 (f_new - f)\<bar> < tol then f_new
      else colebrook_iter_b64 re eps D tol n (b64 (0.5 * b64 (f + f_new))))"

fun colebrook_rhs_nonzero_b64 ::
  "real \<Rightarrow> real \<Rightarrow> real \<Rightarrow> real \<Rightarrow> nat \<Rightarrow> real \<Rightarrow> bool" where
  "colebrook_rhs_nonzero_b64 re eps D tol 0 f = True"
| "colebrook_rhs_nonzero_b64 re eps D tol (Suc n) f =
     (colebrook_rhs_b64 re eps D f \<noteq> 0 \<and>
      (let f_new = colebrook_proposal_b64 re eps D f in
       \<bar>b64 (f_new - f)\<bar> < tol \<or>
       colebrook_rhs_nonzero_b64 re eps D tol n (b64 (0.5 * b64 (f + f_new)))))"

section \<open>Properties\<close>

subsection \<open>Sequencing\<close>

lemma and_then_simps [simp]:
  "and_then (Inl e) k = Inl e"
  "and_then (Inr v) k = k v"
  by (simp_all add: and_then_def)

lemma and_then_Inl_iff:
  "and_then r k = Inl e \<longleftrightarrow> r = Inl e \<or> (\<exists>v. r = Inr v \<and> k v = Inl e)"
  by (cases r) simp_all

subsection \<open>Laminar regime and the guard on the Reynolds number\<close>

text \<open>
  C9. For every Reynolds number strictly between 0 and 2300 the friction factor is
  exactly \<open>64 / Re\<close>, whatever the roughness and the diameter; the iterative solver is
  not entered.
\<close>

theorem friction_factor_laminar_exact:
  "0 < re \<Longrightarrow> re < 2300 \<Longrightarrow> friction_factor re eps_rel D = Inr (64 / re)"
  by (simp add: friction_factor_def friction_factor_laminar_def py_div_def)

theorem friction_factor_laminar_exact_witness:
  "(0::real) < 1000 \<and> (1000::real) < 2300 \<and> friction_factor 1000 0 1 = Inr 0.064"
  using friction_factor_laminar_exact [of 1000 0 1] by simp

text \<open>
  C7. For a Reynolds number that is zero or negative \<open>friction_factor\<close> raises
  ValueError and returns no number, and the Colebrook solver, which checks the same
  precondition again, raises ValueError too, for every seed, cap and tolerance.
\<close>

theorem nonpositive_reynolds_rejected:
  "re \<le> 0 \<Longrightarrow>
     friction_factor re eps_rel D = Inl (ValueError ''Re must be positive'') \<and>
     friction_factor_colebrook re eps_rel D f0 max_iter tol =
       Inl (ValueError ''Re must be positive for Colebrook'')"
  by (simp add: friction_factor_def friction_factor_colebrook_def)

theorem nonpositive_reynolds_rejected_witness:
  "(0::real) \<le> 0 \<and>
     friction_factor 0 0 1 = Inl (ValueError ''Re must be positive'') \<and>
     friction_factor_colebrook 0 0 1 default_f0 default_max_iter default_tol =
       Inl (ValueError ''Re must be positive for Colebrook'')"
  using nonpositive_reynolds_rejected [of 0 0 1 default_f0 default_max_iter default_tol] by simp

subsection \<open>Kinematics\<close>

text \<open>
  C6, as the code has it. \<open>velocity_from_flowrate\<close> has no check on the diameter: for
  every nonzero diameter, negative ones included, it returns \<open>Q / (pi D^2 / 4)\<close>, and
  for a zero diameter the division raises ZeroDivisionError. It never raises ValueError.
\<close>

theorem velocity_from_flowrate_unguarded:
  "velocity_from_flowrate Q D =
     (if D = 0 then Inl ZeroDivisionError else Inr (Q / (pi * D ^ 2 / 4)))"
  by (simp add: velocity_from_flowrate_def py_div_def)

theorem velocity_from_flowrate_unguarded_witness:
  "velocity_from_flowrate pi 2 = Inr 1"
  using velocity_from_flowrate_unguarded [of pi 2] by simp

text \<open>
  C6 as stated fails: with diameter \<open>-1\<close> the call returns the number \<open>4 / pi\<close>, and
  with diameter \<open>0\<close> the exception is ZeroDivisionError, not ValueError.
\<close>

theorem velocity_negative_diameter_counterexample:
  "velocity_from_flowrate 1 (- 1) = Inr (4 / pi) \<and>
   velocity_from_flowrate 1 0 = Inl ZeroDivisionError"
  by (simp add: velocity_from_flowrate_def py_div_def)

text \<open>
  C5, as the code has it. With \<open>nu\<close> supplied and nonzero the result is \<open>V D / nu\<close>;
  with only \<open>mu\<close> supplied, \<open>mu\<close> and \<open>rho\<close> nonzero, it is \<open>rho V D / mu\<close>, for negative
  \<open>rho\<close> as well; a zero divisor raises ZeroDivisionError. ValueError is raised exactly
  when neither viscosity is supplied: the density is not checked.
\<close>

theorem reynolds_number_cases:
  "reynolds_number rho V D mu nu =
     (case nu of
        Some n \<Rightarrow> if n = 0 then Inl ZeroDivisionError else Inr (V * D / n)
      | None \<Rightarrow>
          (case mu of
             None \<Rightarrow> Inl (ValueError ''Provide mu or nu'')
           | Some m \<Rightarrow>
               if rho = 0 \<or> m = 0 then Inl ZeroDivisionError else Inr (rho * V * D / m)))
   \<and> ((\<exists>msg. reynolds_number rho V D mu nu = Inl (ValueError msg)) \<longleftrightarrow>
        (mu = None \<and> nu = None))"
  by (auto simp add: reynolds_number_def py_div_def split: option.splits)

theorem reynolds_number_cases_witness:
  "reynolds_number 1000 2 (1/20) (Some (1/1000)) None = Inr 100000"
  using reynolds_number_cases [of 1000 2 "1/20" "Some (1/1000)" None] by simp

text \<open>
  C5 as stated fails: with density \<open>-1\<close> and only \<open>mu\<close> supplied the call returns the
  Reynolds number \<open>-1\<close> where the claim has it raise.
\<close>

theorem reynolds_negative_density_counterexample:
  "reynolds_number (- 1) 1 1 (Some 1) None = Inr (- 1)"
  by (simp add: reynolds_number_def py_div_def)

subsection \<open>The check on the flow mode\<close>

text \<open>No step after the first check of the entry point raises that check's exception.\<close>

lemma py_div_not_flow_mode: "py_div a b \<noteq> Inl flow_mode_error"
  by (simp add: py_div_def flow_mode_error_def)

lemma py_sqrt_not_flow_mode: "py_sqrt x \<noteq> Inl flow_mode_error"
  by (simp add: py_sqrt_def flow_mode_error_def)

lemma py_log10_not_flow_mode: "py_log10 x \<noteq> Inl flow_mode_error"
  by (simp add: py_log10_def flow_mode_error_def)

lemmas prim_not_flow_mode = py_div_not_flow_mode py_sqrt_not_flow_mode py_log10_not_flow_mode

lemma colebrook_f_new_not_flow_mode:
  "colebrook_f_new re eps_rel D f \<noteq> Inl flow_mode_error"
  by (auto simp add: colebrook_f_new_def and_then_Inl_iff prim_not_flow_mode Let_def)

lemma colebrook_loop_not_flow_mode:
  "colebrook_loop re eps_rel D tol n f \<noteq> Inl flow_mode_error"
proof (induction n arbitrary: f)
  case 0
  show ?case by simp
next
  case (Suc n)
  show ?case
    using Suc.IH colebrook_f_new_not_flow_mode [of re eps_rel D f]
    by (auto split: sum.splits)
qed

lemma friction_factor_colebrook_not_flow_mode:
  "friction_factor_colebrook re eps_rel D f0 k tol \<noteq> Inl flow_mode_error"
  by (simp add: friction_factor_colebrook_def colebrook_loop_not_flow_mode)
     (simp add: flow_mode_error_def)

lemma friction_factor_not_flow_mode:
  "friction_factor re eps_rel D \<noteq> Inl flow_mode_error"
  unfolding friction_factor_def friction_factor_laminar_def
  using friction_factor_colebrook_not_flow_mode
          [of re eps_rel D default_f0 default_max_iter default_tol]
        py_div_not_flow_mode [of 64 re]
  by (simp split: sum.splits) (simp add: flow_mode_error_def)

lemma reynolds_number_not_flow_mode:
  "reynolds_number rho V D mu nu \<noteq> Inl flow_mode_error"
  by (auto simp add: reynolds_number_def and_then_Inl_iff prim_not_flow_mode split: option.splits)
     (simp add: flow_mode_error_def)

lemma head_loss_darcy_not_flow_mode:
  "head_loss_darcy f L D V \<noteq> Inl flow_mode_error"
  by (simp add: head_loss_darcy_def and_then_Inl_iff prim_not_flow_mode)

lemma velocity_from_flowrate_not_flow_mode:
  "velocity_from_flowrate Q D \<noteq> Inl flow_mode_error"
  by (simp add: velocity_from_flowrate_def prim_not_flow_mode)

lemma analyze_flow_mode_error_iff:
  "analyze_pipe_flow Q V D L eps_rel rho mu nu K_total = Inl flow_mode_error
     \<longleftrightarrow> Q = None \<and> V = None"
proof (cases "Q = None \<and> V = None")
  case True
  then show ?thesis by (simp add: analyze_pipe_flow_def flow_mode_error_def)
next
  case False
  have "analyze_pipe_flow Q V D L eps_rel rho mu nu K_total \<noteq> Inl flow_mode_error"
    using False
    by (auto simp add: analyze_pipe_flow_def and_then_Inl_iff Let_def
        velocity_from_flowrate_not_flow_mode reynolds_number_not_flow_mode
        friction_factor_not_flow_mode head_loss_darcy_not_flow_mode flow_mode_error_def [symmetric]
        split: option.splits)
      (simp_all add: flow_mode_error_def)
  with False show ?thesis by simp
qed

lemma analyze_laminar_example:
  "analyze_pipe_flow Q (Some 1) 1 1 0 (Some 1) None (Some (1/1000)) 0 =
     Inr \<lparr>res_Re = 1000, res_f = 64 / 1000, res_V = 1, res_h_f = 64 / 1000 / (2 * g),
          res_h_minor = 0, res_head_total = 64 / 1000 / (2 * g), res_deltaP = 32 / 1000\<rparr>"
  by (simp add: analyze_pipe_flow_def reynolds_number_def py_div_def friction_factor_def
      friction_factor_laminar_def head_loss_darcy_def minor_loss_head_def pressure_drop_def g_def)

text \<open>
  C4, as the code has it. The entry point raises the ValueError of its flow-mode check
  exactly when neither \<open>Q\<close> nor \<open>V\<close> is supplied. A call with both supplied passes the
  check, as does a call with exactly one.
\<close>

theorem flow_mode_check:
  "analyze_pipe_flow Q V D L eps_rel rho mu nu K_total = Inl (ValueError ''Provide Q or V'')
     \<longleftrightarrow> Q = None \<and> V = None"
  using analyze_flow_mode_error_iff [of Q V D L eps_rel rho mu nu K_total]
  by (simp add: flow_mode_error_def)

theorem flow_mode_check_witness:
  "analyze_pipe_flow None None 1 1 0 (Some 1) None (Some (1/1000)) 0 =
     Inl (ValueError ''Provide Q or V'')"
  using flow_mode_check [of None None 1 1 0 "Some 1" None "Some (1/1000)" 0] by simp

text \<open>
  C4 as stated fails: with \<open>Q = 1\<close> and \<open>V = 1\<close> both supplied the call raises nothing
  and returns a full result (laminar, \<open>Re = 1000\<close>).
\<close>

theorem both_modes_accepted_counterexample:
  "analyze_pipe_flow (Some 1) (Some 1) 1 1 0 (Some 1) None (Some (1/1000)) 0 =
     Inr \<lparr>res_Re = 1000, res_f = 64 / 1000, res_V = 1, res_h_f = 64 / 1000 / (2 * g),
          res_h_minor = 0, res_head_total = 64 / 1000 / (2 * g), res_deltaP = 32 / 1000\<rparr>"
  by (rule analyze_laminar_example)

text \<open>
  C10, as the code has it. With \<open>V\<close> supplied the outcome of the entry point, result
  or exception, is the same for every \<open>Q\<close>, supplied or not: \<open>Q\<close> has no influence on any
  field of the output. The outcome is never the exception of the flow-mode check, and
  whenever the call with \<open>V\<close> alone returns a record, the call with \<open>Q\<close> added returns that
  record. The exceptions of the later steps are raised as they are without \<open>Q\<close>.
\<close>

theorem velocity_overrides_flowrate:
  "analyze_pipe_flow Q (Some V) D L eps_rel rho mu nu K_total =
     analyze_pipe_flow Q' (Some V) D L eps_rel rho mu nu K_total \<and>
   analyze_pipe_flow Q (Some V) D L eps_rel rho mu nu K_total \<noteq>
     Inl (ValueError ''Provide Q or V'') \<and>
   (analyze_pipe_flow None (Some V) D L eps_rel rho mu nu K_total = Inr r \<longrightarrow>
    analyze_pipe_flow Q (Some V) D L eps_rel rho mu nu K_total = Inr r)"
  using analyze_flow_mode_error_iff [of Q "Some V" D L eps_rel rho mu nu K_total]
  by (simp add: flow_mode_error_def analyze_pipe_flow_def)

theorem velocity_overrides_flowrate_witness:
  "analyze_pipe_flow None (Some 1) 1 1 0 (Some 1) None (Some (1/1000)) 0 =
     Inr \<lparr>res_Re = 1000, res_f = 64 / 1000, res_V = 1, res_h_f = 64 / 1000 / (2 * g),
          res_h_minor = 0, res_head_total = 64 / 1000 / (2 * g), res_deltaP = 32 / 1000\<rparr> \<and>
   analyze_pipe_flow (Some 7) (Some 1) 1 1 0 (Some 1) None (Some (1/1000)) 0 =
     Inr \<lparr>res_Re = 1000, res_f = 64 / 1000, res_V = 1, res_h_f = 64 / 1000 / (2 * g),
          res_h_minor = 0, res_head_total = 64 / 1000 / (2 * g), res_deltaP = 32 / 1000\<rparr>"
proof -
  have h: "analyze_pipe_flow None (Some 1) 1 1 0 (Some 1) None (Some (1/1000)) 0 =
     Inr \<lparr>res_Re = 1000, res_f = 64 / 1000, res_V = 1, res_h_f = 64 / 1000 / (2 * g),
          res_h_minor = 0, res_head_total = 64 / 1000 / (2 * g), res_deltaP = 32 / 1000\<rparr>"
    by (rule analyze_laminar_example)
  from velocity_overrides_flowrate [of "Some 7" 1 1 1 0 "Some 1" None "Some (1/1000)" 0 None]
    h show ?thesis by blast
qed

text \<open>
  C10 as stated fails: with both \<open>Q\<close> and \<open>V\<close> supplied the call can raise. With
  \<open>V = 0\<close> the Reynolds number is 0 and the friction factor's guard raises; with the
  density absent the entry point's own check raises.
\<close>

theorem both_supplied_still_raises_counterexample:
  "analyze_pipe_flow (Some 1) (Some 0) 1 1 0 (Some 1) None (Some (1/1000)) 0 =
     Inl (ValueError ''Re must be positive'') \<and>
   analyze_pipe_flow (Some 1) (Some 1) 1 1 0 None None (Some (1/1000)) 0 =
     Inl (ValueError ''rho required'')"
  by (simp add: analyze_pipe_flow_def reynolds_number_def py_div_def friction_factor_def)

text \<open>
  C8. Mode equivalence: whenever the analysis succeeds on a flow rate \<open>Q0\<close>, the
  velocity \<open>velocity_from_flowrate Q0 D\<close> exists and the analysis on that velocity, with
  the other parameters unchanged, returns the same record, field by field.
\<close>

theorem mode_equivalence:
  "analyze_pipe_flow (Some Q0) None D L eps_rel rho mu nu K_total = Inr r \<Longrightarrow>
     \<exists>v. velocity_from_flowrate Q0 D = Inr v \<and>
         analyze_pipe_flow None (Some v) D L eps_rel rho mu nu K_total = Inr r"
  by (cases "velocity_from_flowrate Q0 D") (simp_all add: analyze_pipe_flow_def)

theorem mode_equivalence_witness:
  "analyze_pipe_flow (Some (pi / 4)) None 1 1 0 (Some 1) None (Some (1/1000)) 0 =
     Inr \<lparr>res_Re = 1000, res_f = 64 / 1000, res_V = 1, res_h_f = 64 / 1000 / (2 * g),
          res_h_minor = 0, res_head_total = 64 / 1000 / (2 * g), res_deltaP = 32 / 1000\<rparr>
   \<and> (\<exists>v. velocity_from_flowrate (pi / 4) 1 = Inr v \<and>
         analyze_pipe_flow None (Some v) 1 1 0 (Some 1) None (Some (1/1000)) 0 =
           Inr \<lparr>res_Re = 1000, res_f = 64 / 1000, res_V = 1, res_h_f = 64 / 1000 / (2 * g),
                res_h_minor = 0, res_head_total = 64 / 1000 / (2 * g), res_deltaP = 32 / 1000\<rparr>)"
proof -
  have h: "analyze_pipe_flow (Some (pi / 4)) None 1 1 0 (Some 1) None (Some (1/1000)) 0 =
     Inr \<lparr>res_Re = 1000, res_f = 64 / 1000, res_V = 1, res_h_f = 64 / 1000 / (2 * g),
          res_h_minor = 0, res_head_total = 64 / 1000 / (2 * g), res_deltaP = 32 / 1000\<rparr>"
    by (simp add: analyze_pipe_flow_def velocity_from_flowrate_def reynolds_number_def py_div_def
        friction_factor_def friction_factor_laminar_def head_loss_darcy_def minor_loss_head_def
        pressure_drop_def g_def)
  from mode_equivalence [OF h] h show ?thesis by simp
qed

subsection \<open>Bounds on logarithms and powers\<close>

lemma band_add:
  fixes c t d lo hi :: real
  assumes "lo \<le> c" "c + d < hi" "0 < t" "t \<le> d"
  shows "lo \<le> c + t" "c + t < hi"
  using assms by linarith+

lemma log10_upper_band:
  fixes x :: real
  assumes "1 / 2 \<le> x" "x < 1"
  shows "- (1 / 3) \<le> log 10 x" "log 10 x < 0"
proof -
  have pos: "0 < x" using assms by simp
  have "(1 / 2) ^ 3 \<le> x ^ 3"
    using assms by (intro power_mono) simp_all
  then have "10 powr (- 1) \<le> x ^ 3"
    by (simp add: powr_minus_divide power3_eq_cube)
  then have "- 1 \<le> log 10 (x ^ 3)"
    using pos by (subst le_log_iff) simp_all
  then have "- 1 \<le> 3 * log 10 x"
    using pos by (simp add: log_nat_power)
  then show "- (1 / 3) \<le> log 10 x" by simp
  show "log 10 x < 0" using pos assms by simp
qed

lemma log10_below_minus_half:
  fixes y :: real
  assumes "0 < y" "y ^ 2 < 1 / 10"
  shows "log 10 y < - (1 / 2)"
proof -
  have "y ^ 2 < 10 powr (- 1)"
    using assms by (simp add: powr_minus_divide)
  then have "log 10 (y ^ 2) < - 1"
    using assms by (subst log_less_iff) simp_all
  then have "2 * log 10 y < - 1"
    using assms by (simp add: log_nat_power)
  then show ?thesis by simp
qed

lemma powr_nine_tenths_lower:
  fixes re :: real
  assumes "2300 \<le> re"
  shows "1000 \<le> re powr 0.9"
proof -
  have re_pos: "0 < re" using assms by simp
  have "(re powr 0.9) ^ 10 = (re powr 0.9) powr (real 10)"
    by (rule powr_realpow [symmetric]) (use re_pos in simp)
  also have "\<dots> = re powr (0.9 * real 10)"
    by (rule powr_powr)
  also have "\<dots> = re powr (real 9)"
    by simp
  also have "\<dots> = re ^ 9"
    by (rule powr_realpow) (rule re_pos)
  finally have eq: "(re powr 0.9) ^ 10 = re ^ 9" .
  have "(1000::real) ^ 10 \<le> 2300 ^ 9" by simp
  also have "\<dots> \<le> re ^ 9" using assms by (rule power_mono) simp
  finally have "(1000::real) ^ 10 \<le> (re powr 0.9) ^ 10" unfolding eq .
  then show ?thesis
    using power_mono_iff [of 1000 "re powr 0.9" 10] by simp
qed

subsection \<open>Swamee-Jain on admissible arguments\<close>

lemma swamee_jain_arg_pos:
  fixes re eps D :: real
  assumes "0 < re" "0 \<le> eps" "0 < D"
  shows "0 < eps / (3.7 * D) + 5.74 / re powr 0.9"
proof -
  have "0 \<le> eps / (3.7 * D)" using assms by simp
  moreover have "0 < 5.74 / re powr 0.9" using assms by simp
  ultimately show ?thesis by linarith
qed

lemma friction_factor_swamee_jain_value:
  assumes "0 < re" "0 \<le> eps" "0 < D"
  shows "friction_factor_swamee_jain re eps D =
           (if log 10 (eps / (3.7 * D) + 5.74 / re powr 0.9) = 0 then Inl ZeroDivisionError
            else Inr (swamee_jain_spec re eps D))"
proof -
  have arg: "0 < eps / (3.7 * D) + 5.74 / re powr 0.9"
    using assms by (rule swamee_jain_arg_pos)
  have eq: "eps / D / 3.7 = eps / (3.7 * D)" by simp
  have pw: "re powr 0.9 \<noteq> 0" using assms by simp
  show ?thesis
    using assms arg pw
    by (simp add: friction_factor_swamee_jain_def py_div_def py_log10_def swamee_jain_spec_def
        Let_def not_le mult.commute [of D] del: powr_eq_0_iff)
qed

lemma friction_factor_turbulent:
  assumes "2300 \<le> re" "0 \<le> eps" "0 < D"
  shows "friction_factor re eps D =
           (if 0 < swamee_jain_spec re eps D \<and> swamee_jain_spec re eps D < 1
            then Inr (swamee_jain_spec re eps D)
            else friction_factor_colebrook re eps D default_f0 default_max_iter default_tol)"
proof -
  have re_pos: "0 < re" using assms by simp
  show ?thesis
  proof (cases "log 10 (eps / (3.7 * D) + 5.74 / re powr 0.9) = 0")
    case True
    then have "swamee_jain_spec re eps D = 0" by (simp add: swamee_jain_spec_def)
    then show ?thesis
      using assms True friction_factor_swamee_jain_value [OF re_pos assms(2,3)]
      by (simp add: friction_factor_def)
  next
    case False
    then show ?thesis
      using assms friction_factor_swamee_jain_value [OF re_pos assms(2,3)]
      by (simp add: friction_factor_def)
  qed
qed

subsection \<open>The Colebrook loop on admissible arguments\<close>

lemma colebrook_arg_pos:
  fixes re eps D f :: real
  assumes "0 < re" "0 \<le> eps" "0 < D" "0 < f"
  shows "0 < eps / (3.7 * D) + 2.51 / (re * sqrt f)"
proof -
  have "0 \<le> eps / (3.7 * D)" using assms by simp
  moreover have "0 < 2.51 / (re * sqrt f)" using assms by simp
  ultimately show ?thesis by linarith
qed

lemma colebrook_f_new_value:
  assumes "0 < re" "0 \<le> eps" "0 < D" "0 < f"
  shows "colebrook_f_new re eps D f =
           (if colebrook_rhs re eps D f = 0 then Inl ZeroDivisionError
            else Inr (1 / (colebrook_rhs re eps D f) ^ 2))"
proof -
  have arg: "0 < eps / (3.7 * D) + 2.51 / (re * sqrt f)"
    using assms by (rule colebrook_arg_pos)
  have s: "sqrt f \<noteq> 0" "\<not> f < 0" "re * sqrt f \<noteq> 0" using assms by simp_all
  show ?thesis
    using assms arg s
    by (simp add: colebrook_f_new_def py_div_def py_sqrt_def py_log10_def colebrook_rhs_def
        Let_def not_le mult.commute [of D])
qed

lemma colebrook_loop_refines:
  assumes "0 < re" "0 \<le> eps" "0 < D"
  shows "0 < f \<Longrightarrow> colebrook_rhs_nonzero re eps D tol n f \<Longrightarrow>
           colebrook_loop re eps D tol n f = Inr (colebrook_iter re eps D tol n f)"
proof (induction n arbitrary: f)
  case 0
  show ?case by simp
next
  case (Suc n)
  let ?r = "colebrook_rhs re eps D f"
  let ?fn = "1 / ?r ^ 2"
  have nz: "?r \<noteq> 0" using Suc.prems(2) by simp
  have fn: "colebrook_f_new re eps D f = Inr ?fn"
    using colebrook_f_new_value [OF assms Suc.prems(1)] nz by simp
  have fn_pos: "0 < ?fn" using nz by simp
  show ?case
  proof (cases "\<bar>?fn - f\<bar> < tol")
    case True
    then show ?thesis using fn by (simp add: Let_def)
  next
    case False
    have "0 < f + ?fn" using Suc.prems(1) fn_pos by (rule add_pos_pos)
    then have pos': "0 < 0.5 * (f + ?fn)" by simp
    have nz': "colebrook_rhs_nonzero re eps D tol n (0.5 * (f + ?fn))"
      using Suc.prems(2) False by (simp add: Let_def)
    show ?thesis
      using fn False Suc.IH [OF pos' nz'] by (simp add: Let_def)
  qed
qed

subsection \<open>A rough pipe: Reynolds number 2300, roughness 2, diameter 1\<close>

text \<open>
  Here the relative roughness is 2. Every argument of the logarithm stays in \<open>[1/2, 1)\<close>,
  so Swamee-Jain gives a value of at least \<open>9/4\<close> and is rejected, and every proposal of
  the Colebrook loop is at least \<open>9/4\<close> as well.
\<close>

lemma rough_arg_band:
  fixes f :: real
  assumes "1 / 50 \<le> f"
  shows "1 / 2 \<le> 2 / (3.7 * 1) + 2.51 / (2300 * sqrt f)"
    and "2 / (3.7 * 1) + 2.51 / (2300 * sqrt f) < 1"
proof -
  have "(1 / 10)\<^sup>2 \<le> f" using assms by (simp add: power2_eq_square)
  then have s: "1 / 10 \<le> sqrt f" by (rule real_le_rsqrt)
  then have s_pos: "0 < sqrt f" by linarith
  define t where "t = 2.51 / (2300 * sqrt f)"
  have t_pos: "0 < t" unfolding t_def using s_pos by simp
  have "t \<le> 2.51 / (2300 * (1 / 10))"
    unfolding t_def using s s_pos
    by (intro divide_left_mono mult_left_mono mult_pos_pos) simp_all
  then have t_le: "t \<le> 1 / 50" by simp
  have a: "(1::real) / 2 \<le> 2 / (3.7 * 1)" "(2::real) / (3.7 * 1) + 1 / 50 < 1" by simp_all
  show "1 / 2 \<le> 2 / (3.7 * 1) + 2.51 / (2300 * sqrt f)"
    by (rule band_add(1) [OF a t_pos t_le, unfolded t_def])
  show "2 / (3.7 * 1) + 2.51 / (2300 * sqrt f) < 1"
    by (rule band_add(2) [OF a t_pos t_le, unfolded t_def])
qed

lemma rough_rhs_band:
  assumes "1 / 50 \<le> f"
  shows "0 < colebrook_rhs 2300 2 1 f" and "colebrook_rhs 2300 2 1 f \<le> 2 / 3"
proof -
  note b = rough_arg_band [OF assms]
  note l = log10_upper_band [OF b]
  show "0 < colebrook_rhs 2300 2 1 f" using l(2) unfolding colebrook_rhs_def by linarith
  show "colebrook_rhs 2300 2 1 f \<le> 2 / 3" using l(1) unfolding colebrook_rhs_def by linarith
qed

lemma rough_f_new:
  assumes "1 / 50 \<le> f"
  shows "9 / 4 \<le> 1 / (colebrook_rhs 2300 2 1 f) ^ 2"
proof -
  let ?r = "colebrook_rhs 2300 2 1 f"
  note r = rough_rhs_band [OF assms]
  have "?r ^ 2 \<le> (2 / 3) ^ 2" using r by (intro power_mono) simp_all
  then have le: "?r ^ 2 \<le> 4 / 9" by (simp add: power2_eq_square)
  have pos: "0 < ?r ^ 2" using r(1) by simp
  have "1 / (4 / 9) \<le> 1 / ?r ^ 2"
    using le pos by (intro divide_left_mono) simp_all
  then show ?thesis by simp
qed

lemma rough_rhs_nonzero:
  "1 / 50 \<le> f \<Longrightarrow> colebrook_rhs_nonzero 2300 2 1 tol n f"
proof (induction n arbitrary: f)
  case 0
  show ?case by simp
next
  case (Suc n)
  have nz: "colebrook_rhs 2300 2 1 f \<noteq> 0" using rough_rhs_band(1) [OF Suc.prems] by simp
  have "1 / 50 \<le> 0.5 * (f + 1 / (colebrook_rhs 2300 2 1 f) ^ 2)"
    using rough_f_new [OF Suc.prems] Suc.prems by simp
  then have "colebrook_rhs_nonzero 2300 2 1 tol n (0.5 * (f + 1 / (colebrook_rhs 2300 2 1 f) ^ 2))"
    by (rule Suc.IH)
  with nz show ?case by (simp add: Let_def)
qed

lemma rough_iter_ge_one:
  "1 \<le> f \<Longrightarrow> 1 \<le> colebrook_iter 2300 2 1 tol n f"
proof (induction n arbitrary: f)
  case 0
  then show ?case by simp
next
  case (Suc n)
  have f50: "1 / 50 \<le> f" using Suc.prems by simp
  note fn = rough_f_new [OF f50]
  have "1 \<le> 0.5 * (f + 1 / (colebrook_rhs 2300 2 1 f) ^ 2)"
    using fn Suc.prems by simp
  then have "1 \<le> colebrook_iter 2300 2 1 tol n (0.5 * (f + 1 / (colebrook_rhs 2300 2 1 f) ^ 2))"
    by (rule Suc.IH)
  with fn show ?case by (simp add: Let_def)
qed

lemma rough_iter_from_seed:
  assumes "1 / 50 \<le> f" "0 < n"
  shows "1 \<le> colebrook_iter 2300 2 1 tol n f"
proof -
  obtain m where n: "n = Suc m" using assms(2) by (cases n) simp_all
  note fn = rough_f_new [OF assms(1)]
  have "1 \<le> 0.5 * (f + 1 / (colebrook_rhs 2300 2 1 f) ^ 2)"
    using fn assms(1) by simp
  then have "1 \<le> colebrook_iter 2300 2 1 tol m
                    (0.5 * (f + 1 / (colebrook_rhs 2300 2 1 f) ^ 2))"
    by (rule rough_iter_ge_one)
  with fn show ?thesis unfolding n by (simp add: Let_def)
qed

lemma rough_colebrook:
  "friction_factor_colebrook 2300 2 1 default_f0 default_max_iter default_tol =
     Inr (colebrook_iter 2300 2 1 default_tol default_max_iter default_f0)"
proof -
  have nz: "colebrook_rhs_nonzero 2300 2 1 default_tol default_max_iter default_f0"
    by (rule rough_rhs_nonzero) (simp add: default_f0_def)
  have "colebrook_loop 2300 2 1 default_tol default_max_iter default_f0 =
          Inr (colebrook_iter 2300 2 1 default_tol default_max_iter default_f0)"
    by (rule colebrook_loop_refines [OF _ _ _ _ nz]) (simp_all add: default_f0_def)
  then show ?thesis by (simp add: friction_factor_colebrook_def)
qed

lemma rough_colebrook_ge_one:
  "1 \<le> colebrook_iter 2300 2 1 default_tol default_max_iter default_f0"
  by (rule rough_iter_from_seed) (simp_all add: default_f0_def default_max_iter_def)

lemma rough_swamee_jain_rejected:
  "1 \<le> swamee_jain_spec 2300 2 1"
proof -
  let ?y = "2 / (3.7 * 1) + 5.74 / (2300::real) powr 0.9"
  have p: "1000 \<le> (2300::real) powr 0.9" by (rule powr_nine_tenths_lower) simp
  define B where "B = 5.74 / (2300::real) powr 0.9"
  have B_pos: "0 < B" unfolding B_def by simp
  have "B \<le> 5.74 / 1000"
    unfolding B_def using p by (intro divide_left_mono) simp_all
  then have B_le: "B \<le> 1 / 50" by simp
  have a: "(1::real) / 2 \<le> 2 / (3.7 * 1)" "(2::real) / (3.7 * 1) + 1 / 50 < 1" by simp_all
  have y: "1 / 2 \<le> ?y" "?y < 1"
    by (rule band_add(1) [OF a B_pos B_le, unfolded B_def],
        rule band_add(2) [OF a B_pos B_le, unfolded B_def])
  note l = log10_upper_band [OF y]
  have "(log 10 ?y) ^ 2 \<le> (1 / 3) ^ 2"
    using l by (intro power2_le_iff_abs_le [THEN iffD2]) simp_all
  then have le: "(log 10 ?y) ^ 2 \<le> 1 / 9" by (simp add: power2_eq_square)
  have pos: "0 < (log 10 ?y) ^ 2" using l(2) by simp
  have "0.25 / (1 / 9) \<le> 0.25 / (log 10 ?y) ^ 2"
    using le pos by (intro divide_left_mono) simp_all
  then show ?thesis unfolding swamee_jain_spec_def by simp
qed

lemma rough_friction_factor:
  "friction_factor 2300 2 1 =
     Inr (colebrook_iter 2300 2 1 default_tol default_max_iter default_f0)"
  using friction_factor_turbulent [of 2300 2 1] rough_swamee_jain_rejected rough_colebrook
  by simp

subsection \<open>Range and selection\<close>

lemma smooth_swamee_jain_accepted:
  assumes "2300 \<le> re" "0 \<le> eps" "0 < D" "eps \<le> D"
  shows "0 < swamee_jain_spec re eps D" and "swamee_jain_spec re eps D < 1"
proof -
  define A where "A = eps / (3.7 * D)"
  define B where "B = 5.74 / re powr 0.9"
  have re_pos: "0 < re" using assms by simp
  have y_pos: "0 < A + B"
    unfolding A_def B_def using re_pos assms(2,3) by (rule swamee_jain_arg_pos)
  have "eps / D \<le> 1" using assms by simp
  then have "eps / D / 3.7 \<le> 1 / 3.7" by (intro divide_right_mono) simp_all
  then have A_le: "A \<le> 10 / 37" unfolding A_def by simp
  have p: "1000 \<le> re powr 0.9" using assms(1) by (rule powr_nine_tenths_lower)
  have "B \<le> 5.74 / 1000"
    unfolding B_def using p re_pos by (intro divide_left_mono) simp_all
  then have B_le: "B \<le> 1 / 100" by simp
  have y_le: "A + B \<le> 3 / 10" using A_le B_le by linarith
  have "(A + B) ^ 2 \<le> (3 / 10) ^ 2"
    using y_pos y_le by (intro power_mono) simp_all
  then have sq: "(A + B) ^ 2 < 1 / 10" by (simp add: power2_eq_square)
  have l: "log 10 (A + B) < - (1 / 2)" using y_pos sq by (rule log10_below_minus_half)
  have "1 / 2 < - log 10 (A + B)" using l by simp
  then have "(1 / 2) ^ 2 < (- log 10 (A + B)) ^ 2"
    by (intro power_strict_mono) simp_all
  then have big: "1 / 4 < (log 10 (A + B)) ^ 2" by (simp add: power2_eq_square)
  have sj: "swamee_jain_spec re eps D = 0.25 / (log 10 (A + B)) ^ 2"
    by (simp add: swamee_jain_spec_def A_def B_def)
  have lnz: "log 10 (A + B) \<noteq> 0" using l by simp
  show "0 < swamee_jain_spec re eps D" unfolding sj using lnz by simp
  have "0.25 / (log 10 (A + B)) ^ 2 < 0.25 / (1 / 4)"
    using big lnz by (intro divide_strict_left_mono) simp_all
  then show "swamee_jain_spec re eps D < 1" unfolding sj by simp
qed

text \<open>
  C1, as the code has it. For every Reynolds number of at least 2300, roughness
  \<open>eps \<ge> 0\<close> and diameter \<open>D > 0\<close> with \<open>eps \<le> D\<close> (relative roughness at most 1) the
  friction factor is returned and lies strictly between 0 and 1: there the Swamee-Jain
  value is accepted. The Colebrook fallback has no clamp.
\<close>

theorem friction_factor_range_smooth:
  "2300 \<le> re \<Longrightarrow> 0 \<le> eps \<Longrightarrow> 0 < D \<Longrightarrow> eps \<le> D \<Longrightarrow>
     \<exists>f. friction_factor re eps D = Inr f \<and> 0 < f \<and> f < 1"
  using friction_factor_turbulent [of re eps D] smooth_swamee_jain_accepted [of re eps D]
  by simp

theorem friction_factor_range_smooth_witness:
  "(2300::real) \<le> 100000 \<and> (0::real) \<le> 1 / 100000 \<and> (0::real) < 1 / 10 \<and>
   (1::real) / 100000 \<le> 1 / 10 \<and>
   (\<exists>f. friction_factor 100000 (1 / 100000) (1 / 10) = Inr f \<and> 0 < f \<and> f < 1)"
  using friction_factor_range_smooth [of 100000 "1 / 100000" "1 / 10"] by simp

text \<open>
  C1 as stated fails: at Reynolds number 2300, roughness 2 and diameter 1 the Swamee-Jain
  value is rejected and the Colebrook fallback returns a friction factor of at least 1.
\<close>

theorem friction_factor_rough_counterexample:
  "\<not> isl (friction_factor 2300 2 1) \<and> 1 \<le> projr (friction_factor 2300 2 1)"
  using rough_friction_factor rough_colebrook_ge_one by simp

text \<open>
  C2. For every Reynolds number of at least 2300, \<open>eps \<ge> 0\<close> and \<open>D > 0\<close>,
  \<open>friction_factor\<close> returns the explicit Swamee-Jain value of the specification when
  that value lies strictly between 0 and 1, and otherwise returns what the Colebrook
  solver returns on the same arguments with its default seed, cap and tolerance.
\<close>

theorem swamee_jain_then_colebrook:
  "2300 \<le> re \<Longrightarrow> 0 \<le> eps \<Longrightarrow> 0 < D \<Longrightarrow>
     friction_factor re eps D =
       (if 0 < swamee_jain_spec re eps D \<and> swamee_jain_spec re eps D < 1
        then Inr (swamee_jain_spec re eps D)
        else friction_factor_colebrook re eps D default_f0 default_max_iter default_tol)"
  by (rule friction_factor_turbulent)

theorem swamee_jain_then_colebrook_witness:
  "(2300::real) \<le> 2300 \<and> (0::real) \<le> 2 \<and> (0::real) < 1 \<and>
     friction_factor 2300 2 1 =
       (if 0 < swamee_jain_spec 2300 2 1 \<and> swamee_jain_spec 2300 2 1 < 1
        then Inr (swamee_jain_spec 2300 2 1)
        else friction_factor_colebrook 2300 2 1 default_f0 default_max_iter default_tol)"
  using swamee_jain_then_colebrook [of 2300 2 1] by simp

subsection \<open>Binary64 rounding\<close>

lemma rne_close: "\<bar>of_int (rne y) - y\<bar> \<le> 1 / 2"
proof -
  have "of_int \<lfloor>y\<rfloor> \<le> y" "y < of_int \<lfloor>y\<rfloor> + 1" by linarith+
  then show ?thesis unfolding rne_def Let_def by auto
qed

lemma rne_exact:
  assumes "of_int n \<le> y" "y < of_int n + 1 / 2"
  shows "rne y = n"
proof -
  have "\<lfloor>y\<rfloor> = n" using assms by linarith
  then show ?thesis using assms unfolding rne_def Let_def by simp
qed

lemma b64_zero: "b64 0 = 0"
  by (simp add: b64_def)

lemma b64_minus: "b64 (- x) = - b64 x"
  by (simp add: b64_def Let_def sgn_minus)

lemma b64_error:
  assumes "0 < x"
  shows "\<bar>b64 x - x\<bar> \<le> x / 2 ^ 53"
proof -
  define e where "e = \<lfloor>log 2 x\<rfloor>"
  define u :: real where "u = 2 powr (real_of_int e - 52)"
  define y :: real where "y = x / u"
  have u_pos: "0 < u" unfolding u_def by simp
  have "real_of_int e \<le> log 2 x" unfolding e_def by simp
  then have "2 powr (real_of_int e) \<le> x"
    using assms by (simp add: le_log_iff)
  moreover have "2 powr (real_of_int e) = u * 2 ^ 52"
  proof -
    have "(2::real) powr (real_of_int e - 52) * 2 powr 52 = 2 powr (real_of_int e - 52 + 52)"
      by (rule powr_add [symmetric])
    moreover have "(2::real) powr 52 = 2 ^ 52"
      using powr_realpow [of "2::real" 52] by simp
    ultimately show ?thesis unfolding u_def by simp
  qed
  ultimately have ux: "u * 2 ^ 52 \<le> x" by simp
  have b: "b64 x = of_int (rne y) * u"
    using assms unfolding b64_def Let_def y_def u_def e_def by simp
  have x: "x = y * u" unfolding y_def using u_pos by simp
  have "\<bar>b64 x - x\<bar> = \<bar>of_int (rne y) - y\<bar> * u"
    unfolding b using x u_pos by (simp add: abs_mult left_diff_distrib [symmetric])
  also have "\<dots> \<le> 1 / 2 * u"
    using rne_close [of y] u_pos by (intro mult_right_mono) simp_all
  also have "\<dots> \<le> x / 2 ^ 53"
    using ux by simp
  finally show ?thesis .
qed

lemma b64_bounds:
  assumes "0 < x"
  shows "99 / 100 * x \<le> b64 x" and "b64 x \<le> 101 / 100 * x"
proof -
  have "x / 2 ^ 53 \<le> x / 100" using assms by (intro divide_left_mono) simp_all
  with b64_error [OF assms] have "\<bar>b64 x - x\<bar> \<le> x / 100" by linarith
  then show "99 / 100 * x \<le> b64 x" and "b64 x \<le> 101 / 100 * x" by linarith+
qed

lemma b64_pos: "0 < x \<Longrightarrow> 0 < b64 x"
  using b64_bounds(1) [of x] by linarith

lemma b64_neg: "x < 0 \<Longrightarrow> b64 x < 0"
  using b64_pos [of "- x"] by (simp add: b64_minus)

lemma b64_eq_0_iff: "b64 x = 0 \<longleftrightarrow> x = 0"
  using b64_pos [of x] b64_neg [of x] b64_zero by (cases "x = 0"; cases "0 < x") auto

lemma b64_ge:
  assumes "0 < lo" "lo \<le> x"
  shows "99 / 100 * lo \<le> b64 x"
proof -
  have "0 < x" using assms by linarith
  from b64_bounds(1) [OF this] assms show ?thesis by linarith
qed

lemma b64_le:
  assumes "0 < x" "x \<le> hi"
  shows "b64 x \<le> 101 / 100 * hi"
  using b64_bounds(2) [OF assms(1)] assms by linarith

lemma b64_first_binade:
  assumes "1 \<le> x" "x < 2"
  shows "b64 x = real_of_int (rne (x * 2 ^ 52)) / 2 ^ 52"
proof -
  have pos: "0 < x" using assms by simp
  have "0 \<le> log 2 x" using assms by simp
  moreover have "log 2 x < 1" using assms pos by (simp add: log_less_iff)
  ultimately have e: "\<lfloor>log 2 x\<rfloor> = 0" by linarith
  have u: "2 powr (- 52 :: real) = 1 / 2 ^ 52"
    using powr_realpow [of "2::real" 52] by (simp add: powr_minus_divide)
  have "b64 x = real_of_int (rne (x / 2 powr (- 52))) * 2 powr (- 52)"
    using pos e by (simp add: b64_def Let_def)
  also have "\<dots> = real_of_int (rne (x / (1 / 2 ^ 52))) * (1 / 2 ^ 52)"
    unfolding u ..
  also have "\<dots> = real_of_int (rne (x * 2 ^ 52)) / 2 ^ 52"
    by simp
  finally show ?thesis .
qed

lemma b64_just_above_one:
  assumes "0 \<le> t" "t \<le> 1 / 2 ^ 54"
  shows "b64 (1 + t) = 1"
proof -
  have "1 / 2 ^ 54 < (1::real)" by simp
  then have x1: "1 \<le> 1 + t" "1 + t < 2" using assms by linarith+
  have "t * 2 ^ 52 \<le> 1 / 2 ^ 54 * 2 ^ 52" using assms by (intro mult_right_mono) simp_all
  then have t52: "t * 2 ^ 52 \<le> 1 / 4" by simp
  have t0: "0 \<le> t * 2 ^ 52" using assms by simp
  have split: "(1 + t) * 2 ^ 52 = 2 ^ 52 + t * 2 ^ 52" by (simp add: distrib_right)
  have "rne ((1 + t) * 2 ^ 52) = 2 ^ 52"
  proof (rule rne_exact)
    show "real_of_int (2 ^ 52) \<le> (1 + t) * 2 ^ 52" unfolding split using t0 by simp
    show "(1 + t) * 2 ^ 52 < real_of_int (2 ^ 52) + 1 / 2" unfolding split using t52 by simp
  qed
  then show ?thesis
    unfolding b64_first_binade [OF x1] by simp
qed

lemma b64_one: "b64 1 = 1"
  using b64_just_above_one [of 0] by simp

subsection \<open>The rounded Colebrook loop\<close>

lemma b64_nonneg: "0 \<le> x \<Longrightarrow> 0 \<le> b64 x"
  using b64_pos [of x] b64_zero by (cases "x = 0") auto

lemma colebrook_arg_b64_pos:
  assumes "0 < re" "0 \<le> eps" "0 < D" "0 < f"
  shows "0 < colebrook_arg_b64 re eps D f"
proof -
  have c37: "0 < b64 3.7" by (rule b64_pos) simp
  have "0 \<le> b64 (eps / D)" using assms by (intro b64_nonneg) simp
  then have "0 \<le> b64 (eps / D) / b64 3.7" using c37 by simp
  then have A: "0 \<le> b64 (b64 (eps / D) / b64 3.7)" by (rule b64_nonneg)
  have s: "0 < b64 (sqrt f)" using assms by (intro b64_pos) simp
  have "0 < re * b64 (sqrt f)" using assms(1) s by (rule mult_pos_pos)
  then have p: "0 < b64 (re * b64 (sqrt f))" by (rule b64_pos)
  have c251: "0 < b64 2.51" by (rule b64_pos) simp
  have "0 < b64 2.51 / b64 (re * b64 (sqrt f))" using c251 p by (rule divide_pos_pos)
  then have t: "0 < b64 (b64 2.51 / b64 (re * b64 (sqrt f)))" by (rule b64_pos)
  have "0 < b64 (b64 (eps / D) / b64 3.7) + b64 (b64 2.51 / b64 (re * b64 (sqrt f)))"
    using A t by linarith
  then show ?thesis unfolding colebrook_arg_b64_def by (rule b64_pos)
qed

lemma colebrook_f_new_b64_value:
  assumes "0 < re" "0 \<le> eps" "0 < D" "0 < f"
  shows "colebrook_f_new_b64 re eps D f =
           (if colebrook_rhs_b64 re eps D f = 0 then Inl ZeroDivisionError
            else Inr (colebrook_proposal_b64 re eps D f))"
proof -
  have s: "b64 (sqrt f) \<noteq> 0" "\<not> f < 0"
    using assms b64_pos [of "sqrt f"] by simp_all
  have c37: "b64 3.7 \<noteq> 0" using b64_pos [of "3.7"] by simp
  have p: "b64 (re * b64 (sqrt f)) \<noteq> 0"
    using assms b64_pos [of "sqrt f"] b64_pos [of "re * b64 (sqrt f)"] by simp
  have D: "D \<noteq> 0" using assms by simp
  have arg: "\<not> colebrook_arg_b64 re eps D f \<le> 0"
    using colebrook_arg_b64_pos [OF assms] by simp
  have sq: "b64 ((colebrook_rhs_b64 re eps D f)\<^sup>2) = 0 \<longleftrightarrow> colebrook_rhs_b64 re eps D f = 0"
    by (simp add: b64_eq_0_iff)
  show ?thesis
    unfolding colebrook_f_new_b64_def py_sqrt_b64_def py_div_b64_def py_log10_b64_def
      colebrook_proposal_b64_def and_then_simps if_not_P [OF s(2)] if_not_P [OF s(1)]
      if_not_P [OF D] if_not_P [OF c37] if_not_P [OF p] Let_def
      colebrook_arg_b64_def [symmetric] if_not_P [OF arg] colebrook_rhs_b64_def [symmetric] sq
    by simp
qed

lemma colebrook_loop_b64_refines:
  assumes "0 < re" "0 \<le> eps" "0 < D"
  shows "0 < f \<Longrightarrow> colebrook_rhs_nonzero_b64 re eps D tol n f \<Longrightarrow>
           colebrook_loop_b64 re eps D tol n f = Inr (colebrook_iter_b64 re eps D tol n f)"
proof (induction n arbitrary: f)
  case 0
  show ?case by simp
next
  case (Suc n)
  let ?fn = "colebrook_proposal_b64 re eps D f"
  have nz: "colebrook_rhs_b64 re eps D f \<noteq> 0" using Suc.prems(2) by simp
  have fn: "colebrook_f_new_b64 re eps D f = Inr ?fn"
    using colebrook_f_new_b64_value [OF assms Suc.prems(1)] nz by simp
  have "0 < b64 ((colebrook_rhs_b64 re eps D f)\<^sup>2)" using nz by (intro b64_pos) simp
  then have fn_pos: "0 < ?fn" unfolding colebrook_proposal_b64_def by (intro b64_pos) simp
  show ?case
  proof (cases "\<bar>b64 (?fn - f)\<bar> < tol")
    case True
    then show ?thesis using fn by (simp add: Let_def)
  next
    case False
    have "0 < f + ?fn" using Suc.prems(1) fn_pos by (rule add_pos_pos)
    then have "0 < b64 (f + ?fn)" by (rule b64_pos)
    then have "0 < 0.5 * b64 (f + ?fn)" by simp
    then have pos': "0 < b64 (0.5 * b64 (f + ?fn))" by (rule b64_pos)
    have nz': "colebrook_rhs_nonzero_b64 re eps D tol n (b64 (0.5 * b64 (f + ?fn)))"
      using Suc.prems(2) False by (simp add: Let_def)
    show ?thesis
      using fn False Suc.IH [OF pos' nz'] by (simp add: Let_def)
  qed
qed

lemma b64_in:
  assumes "0 < lo" "lo \<le> x" "x \<le> hi"
  shows "99 / 100 * lo \<le> b64 x" and "b64 x \<le> 101 / 100 * hi" and "0 < b64 x"
proof -
  have x: "0 < x" using assms by linarith
  show "99 / 100 * lo \<le> b64 x" using assms by (intro b64_ge)
  show "b64 x \<le> 101 / 100 * hi" using x assms(3) by (rule b64_le)
  show "0 < b64 x" using x by (rule b64_pos)
qed

lemma div_in:
  fixes x y :: real
  assumes "0 < xl" "xl \<le> x" "x \<le> xh" "0 < yl" "yl \<le> y" "y \<le> yh"
  shows "xl / yh \<le> x / y" and "x / y \<le> xh / yl" and "0 < xl / yh"
proof -
  have y: "0 < y" "0 < yh" using assms by linarith+
  show "xl / yh \<le> x / y" using assms y by (intro frac_le) simp_all
  show "x / y \<le> xh / yl" using assms y by (intro frac_le) simp_all
  show "0 < xl / yh" using assms y by simp
qed

lemma sqrt_b64_lower:
  assumes "1 / 64 \<le> f"
  shows "99 / 800 \<le> b64 (sqrt f)"
proof -
  have "(1 / 8)\<^sup>2 \<le> f" using assms by (simp add: power2_eq_square)
  then have "1 / 8 \<le> sqrt f" by (rule real_le_rsqrt)
  then have "99 / 100 * (1 / 8) \<le> b64 (sqrt f)" by (intro b64_ge) simp_all
  then show ?thesis by simp
qed

lemma small_term_bound:
  assumes f: "1 / 64 \<le> f" and lo: "0 < lo" "lo \<le> re"
  shows "0 < b64 (b64 2.51 / b64 (re * b64 (sqrt f)))"
    and "b64 (b64 2.51 / b64 (re * b64 (sqrt f))) \<le> 26 / lo"
proof -
  define s where "s = b64 (sqrt f)"
  define p where "p = b64 (re * s)"
  define c where "c = b64 2.51"
  have s: "99 / 800 \<le> s" unfolding s_def using f by (rule sqrt_b64_lower)
  have "lo * (99 / 800) \<le> re * s"
    using lo s by (intro mult_mono) simp_all
  moreover have "0 < lo * (99 / 800)" using lo by simp
  ultimately have p: "99 / 100 * (lo * (99 / 800)) \<le> p"
    unfolding p_def by (intro b64_ge)
  have p_lo: "lo * (12 / 100) \<le> p"
  proof -
    have "lo * (12 / 100) \<le> 99 / 100 * (lo * (99 / 800))" using lo by simp
    with p show ?thesis by linarith
  qed
  have c: "0 < c" "c \<le> 101 / 100 * 2.51"
    unfolding c_def by (rule b64_pos, simp, rule b64_le, simp_all)
  have c3: "c \<le> 3" using c(2) by simp
  have plo: "0 < lo * (12 / 100)" using lo by simp
  then have p_pos: "0 < p" using p_lo by linarith
  have q_pos: "0 < c / p" using c(1) p_pos by simp
  have "c / p \<le> 3 / (lo * (12 / 100))"
    using c c3 plo p_lo p_pos by (intro frac_le) simp_all
  then have q_le: "c / p \<le> 25 / lo" by simp
  show "0 < b64 (b64 2.51 / b64 (re * b64 (sqrt f)))"
    using q_pos unfolding c_def p_def s_def by (rule b64_pos)
  have "b64 (c / p) \<le> 101 / 100 * (25 / lo)" using q_pos q_le by (rule b64_le)
  moreover have "101 / 100 * (25 / lo) \<le> 26 / lo"
    using lo by (simp add: field_simps)
  ultimately show "b64 (b64 2.51 / b64 (re * b64 (sqrt f))) \<le> 26 / lo"
    unfolding c_def p_def s_def by linarith
qed

lemma seed_b64_lower: "1 / 64 \<le> b64 default_f0"
proof -
  have "99 / 100 * (1 / 50) \<le> b64 default_f0"
    by (rule b64_ge) (simp_all add: default_f0_def)
  then show ?thesis by simp
qed

text \<open>
  Reynolds number \<open>10^18\<close>, roughness 37, diameter 10: the roughness term is exactly 1
  and the other term is below half a unit in the last place of 1, so their rounded sum
  is 1 and the right-hand side is 0 in the first iteration.
\<close>

lemma huge_reynolds_rhs_zero:
  "colebrook_rhs_b64 (10 ^ 18) 37 10 (b64 default_f0) = 0"
proof -
  define t where "t = b64 (b64 2.51 / b64 (10 ^ 18 * b64 (sqrt (b64 default_f0))))"
  have lo: "(0::real) < 10 ^ 18" "(10::real) ^ 18 \<le> 10 ^ 18" by simp_all
  note tb = small_term_bound [OF seed_b64_lower lo]
  have t0: "0 \<le> t" using tb(1) unfolding t_def by simp
  have "(26::real) / 10 ^ 18 \<le> 1 / 2 ^ 54" by simp
  with tb(2) have t1: "t \<le> 1 / 2 ^ 54" unfolding t_def by linarith
  have c37: "b64 (37 / 10) \<noteq> 0" using b64_pos [of "37 / 10"] by simp
  have A: "b64 (b64 (37 / 10) / b64 3.7) = 1"
  proof -
    have "b64 (37 / 10) / b64 3.7 = 1" using c37 by simp
    then show ?thesis by (simp only: b64_one)
  qed
  have "colebrook_arg_b64 (10 ^ 18) 37 10 (b64 default_f0) = b64 (1 + t)"
    unfolding colebrook_arg_b64_def A t_def ..
  also have "\<dots> = 1" using t0 t1 by (rule b64_just_above_one)
  finally show ?thesis
    unfolding colebrook_rhs_b64_def by (simp add: b64_zero)
qed

lemma huge_reynolds_raises:
  "friction_factor_colebrook_b64 (10 ^ 18) 37 10 (b64 default_f0) default_max_iter
     (b64 default_tol) = Inl ZeroDivisionError"
proof -
  have f0: "0 < b64 default_f0" by (rule b64_pos) (simp add: default_f0_def)
  have fn: "colebrook_f_new_b64 (10 ^ 18) 37 10 (b64 default_f0) = Inl ZeroDivisionError"
    using colebrook_f_new_b64_value [of "10 ^ 18" 37 10 "b64 default_f0"] f0
      huge_reynolds_rhs_zero by simp
  have m: "default_max_iter = Suc 49" by (simp add: default_max_iter_def)
  have "colebrook_loop_b64 (10 ^ 18) 37 10 (b64 default_tol) default_max_iter (b64 default_f0) =
          Inl ZeroDivisionError"
    unfolding m colebrook_loop_b64.simps fn by simp
  then show ?thesis unfolding friction_factor_colebrook_b64_def by simp
qed

text \<open>
  Reynolds number 2300, roughness 2, diameter 1: every argument of the logarithm stays in
  \<open>[1/2, 1)\<close>, so no right-hand side is zero.
\<close>

lemma rough_b64_roughness_term:
  shows "13 / 25 \<le> b64 (b64 (2 / 1) / b64 3.7)"
    and "b64 (b64 (2 / 1) / b64 3.7) \<le> 14 / 25"
proof -
  define a where "a = b64 (2 / 1)"
  define c where "c = b64 3.7"
  have a1: "99 / 100 * 2 \<le> a" unfolding a_def by (rule b64_ge) simp_all
  have a2: "a \<le> 101 / 100 * 2" unfolding a_def by (rule b64_le) simp_all
  have c1: "99 / 100 * 3.7 \<le> c" unfolding c_def by (rule b64_ge) simp_all
  have c2: "c \<le> 101 / 100 * 3.7" unfolding c_def by (rule b64_le) simp_all
  have al: "(0::real) < 99 / 100 * 2" and cl: "(0::real) < 99 / 100 * 3.7" by simp_all
  have q1: "(99 / 100 * 2) / (101 / 100 * 3.7) \<le> a / c"
    using al a1 a2 cl c1 c2 by (rule div_in(1))
  have q2: "a / c \<le> (101 / 100 * 2) / (99 / 100 * 3.7)"
    using al a1 a2 cl c1 c2 by (rule div_in(2))
  have q0: "(0::real) < (99 / 100 * 2) / (101 / 100 * 3.7)" by simp
  have qpos: "0 < a / c" using q0 q1 by (rule less_le_trans)
  have lo: "99 / 100 * ((99 / 100 * 2) / (101 / 100 * 3.7)) \<le> b64 (a / c)"
    using q0 q1 by (rule b64_ge)
  have hi: "b64 (a / c) \<le> 101 / 100 * ((101 / 100 * 2) / (99 / 100 * 3.7))"
    using qpos q2 by (rule b64_le)
  have n1: "(13::real) / 25 \<le> 99 / 100 * ((99 / 100 * 2) / (101 / 100 * 3.7))" by simp
  have n2: "(101::real) / 100 * ((101 / 100 * 2) / (99 / 100 * 3.7)) \<le> 14 / 25" by simp
  show "13 / 25 \<le> b64 (b64 (2 / 1) / b64 3.7)"
    using n1 lo unfolding a_def c_def by (rule order_trans)
  show "b64 (b64 (2 / 1) / b64 3.7) \<le> 14 / 25"
    using hi n2 unfolding a_def c_def by (rule order_trans)
qed

lemma rough_b64_arg_band:
  assumes "1 / 64 \<le> f"
  shows "1 / 2 \<le> colebrook_arg_b64 2300 2 1 f" and "colebrook_arg_b64 2300 2 1 f < 1"
proof -
  define A where "A = b64 (b64 (2 / 1) / b64 3.7)"
  define t where "t = b64 (b64 2.51 / b64 (2300 * b64 (sqrt f)))"
  have A: "13 / 25 \<le> A" "A \<le> 14 / 25"
    unfolding A_def by (rule rough_b64_roughness_term(1), rule rough_b64_roughness_term(2))
  have lo: "(0::real) < 2300" "(2300::real) \<le> 2300" by simp_all
  note tb = small_term_bound [OF assms lo]
  have t: "0 < t" "t \<le> 26 / 2300" using tb unfolding t_def by simp_all
  have "(26::real) / 2300 \<le> 1 / 50" by simp
  with t have t': "t \<le> 1 / 50" by linarith
  have s: "13 / 25 \<le> A + t" "A + t \<le> 29 / 50" using A t t' by linarith+
  have "99 / 100 * (13 / 25) \<le> b64 (A + t)" using s(1) by (intro b64_ge) simp_all
  then have lo': "1 / 2 \<le> b64 (A + t)" by simp
  have "0 < A + t" using s(1) by linarith
  then have "b64 (A + t) \<le> 101 / 100 * (29 / 50)" using s(2) by (rule b64_le)
  then have hi': "b64 (A + t) < 1" by simp
  show "1 / 2 \<le> colebrook_arg_b64 2300 2 1 f"
    using lo' unfolding colebrook_arg_b64_def A_def t_def .
  show "colebrook_arg_b64 2300 2 1 f < 1"
    using hi' unfolding colebrook_arg_b64_def A_def t_def .
qed

lemma rough_b64_rhs_band:
  assumes "1 / 64 \<le> f"
  shows "0 < colebrook_rhs_b64 2300 2 1 f" and "colebrook_rhs_b64 2300 2 1 f \<le> 7 / 10"
proof -
  define l where "l = log 10 (colebrook_arg_b64 2300 2 1 f)"
  note b = rough_b64_arg_band [OF assms]
  have l: "- (1 / 3) \<le> l" "l < 0" unfolding l_def by (rule log10_upper_band [OF b])+
  define m where "m = b64 (- l)"
  have m: "0 < m" "m \<le> 101 / 100 * (1 / 3)"
    unfolding m_def using l by (intro b64_pos, simp, intro b64_le, simp_all)
  have bl: "b64 l = - m" unfolding m_def by (simp add: b64_minus)
  have r: "0 < - 2 * b64 l" "- 2 * b64 l \<le> 2 * (101 / 100 * (1 / 3))"
    unfolding bl using m by simp_all
  have "b64 (- 2 * b64 l) \<le> 101 / 100 * (2 * (101 / 100 * (1 / 3)))"
    using r by (rule b64_le)
  moreover have "(101::real) / 100 * (2 * (101 / 100 * (1 / 3))) \<le> 7 / 10" by simp
  ultimately have "b64 (- 2 * b64 l) \<le> 7 / 10" by (rule order_trans)
  then show "colebrook_rhs_b64 2300 2 1 f \<le> 7 / 10"
    unfolding colebrook_rhs_b64_def l_def .
  have "0 < b64 (- 2 * b64 l)" using r(1) by (rule b64_pos)
  then show "0 < colebrook_rhs_b64 2300 2 1 f"
    unfolding colebrook_rhs_b64_def l_def .
qed

lemma rough_b64_proposal:
  assumes "1 / 64 \<le> f"
  shows "2 \<le> colebrook_proposal_b64 2300 2 1 f"
proof -
  define r where "r = colebrook_rhs_b64 2300 2 1 f"
  have r: "0 < r" "r \<le> 7 / 10" unfolding r_def by (rule rough_b64_rhs_band [OF assms])+
  have "r ^ 2 \<le> (7 / 10) ^ 2" using r by (intro power_mono) simp_all
  then have sq: "r ^ 2 \<le> 49 / 100" by (simp add: power2_eq_square)
  have sq0: "0 < r ^ 2" using r(1) by simp
  define q where "q = b64 (r ^ 2)"
  have q: "0 < q" "q \<le> 101 / 100 * (49 / 100)"
    unfolding q_def using sq0 sq by (intro b64_pos, simp, intro b64_le, simp_all)
  have "1 / (101 / 100 * (49 / 100)) \<le> 1 / q"
    using q by (intro divide_left_mono) simp_all
  moreover have "(2::real) * (100 / 99) \<le> 1 / (101 / 100 * (49 / 100))" by simp
  ultimately have inv: "2 * (100 / 99) \<le> 1 / q" by (rule order_trans [rotated])
  have "99 / 100 * (2 * (100 / 99)) \<le> b64 (1 / q)"
    using inv by (intro b64_ge) simp_all
  then have "2 \<le> b64 (1 / q)" by simp
  then show ?thesis unfolding colebrook_proposal_b64_def q_def r_def .
qed

lemma rough_b64_next:
  assumes "1 / 64 \<le> f" "2 \<le> fn"
  shows "1 / 64 \<le> b64 (0.5 * b64 (f + fn))"
proof -
  have "2 \<le> f + fn" using assms by linarith
  then have "99 / 100 * 2 \<le> b64 (f + fn)" by (intro b64_ge) simp_all
  then have "99 / 100 \<le> 0.5 * b64 (f + fn)" by simp
  then have "99 / 100 * (99 / 100) \<le> b64 (0.5 * b64 (f + fn))" by (intro b64_ge) simp_all
  then show ?thesis by simp
qed

lemma rough_b64_rhs_nonzero:
  "1 / 64 \<le> f \<Longrightarrow> colebrook_rhs_nonzero_b64 2300 2 1 tol n f"
proof (induction n arbitrary: f)
  case 0
  show ?case by simp
next
  case (Suc n)
  have nz: "colebrook_rhs_b64 2300 2 1 f \<noteq> 0"
    using rough_b64_rhs_band(1) [OF Suc.prems] by simp
  have "1 / 64 \<le> b64 (0.5 * b64 (f + colebrook_proposal_b64 2300 2 1 f))"
    using Suc.prems rough_b64_proposal [OF Suc.prems] by (rule rough_b64_next)
  then have "colebrook_rhs_nonzero_b64 2300 2 1 tol n
               (b64 (0.5 * b64 (f + colebrook_proposal_b64 2300 2 1 f)))"
    by (rule Suc.IH)
  with nz show ?case by (simp add: Let_def)
qed

lemma rough_b64_defaults_nonzero:
  "colebrook_rhs_nonzero_b64 2300 2 1 (b64 default_tol) default_max_iter (b64 default_f0)"
  using seed_b64_lower by (rule rough_b64_rhs_nonzero)




end
